theory Spec2Isabelle
  imports
    Complex_Main
    "HOL-Library.Multiset"
    "HOL-Library.Sublist"
    "HOL-Library.AList"
    "HOL-Library.Char_ord"
    "HOL-Library.List_Lexorder"
    "HOL-Library.Product_Lexorder"
begin

section \<open>Library management system: the catalog model of \<open>app.py\<close>\<close>

text \<open>
  A shallow embedding of the classes \<open>Book\<close> and \<open>Library\<close> of \<open>app.py\<close>.
  Conventions of the embedding:
  \<^item> Python's \<open>float\<close> is idealised as \<open>real\<close>: the arithmetic of \<open>add_rating\<close> and of
    the recommendation score is the exact one, rounding is not modelled;
  \<^item> Python's \<open>int\<close> is \<open>int\<close>;
  \<^item> a Python \<open>str\<close> is a \<open>string\<close>, the bytes of its UTF-8 encoding; \<open>str.lower\<close> is
    defined on ASCII strings, and on the others it is a parameter of the search;
  \<^item> \<open>datetime.now().isoformat()\<close> is a parameter \<open>now\<close> of the operation that reads the clock;
  \<^item> an exception is a value of \<open>py_error\<close>, a function that may raise returns
    \<open>py_error + 'a\<close>;
  \<^item> a method that mutates \<open>self\<close> returns the updated object next to its result.
\<close>

subsection \<open>Errors\<close>

datatype py_error =
    KeyError string
  | ValueError string
  | TypeError
  | ZeroDivisionError

subsection \<open>Book\<close>

text \<open>One entry of \<open>borrow_history\<close>: the dict with keys \<open>user_id\<close>, \<open>borrow_date\<close> and
  \<open>return_date\<close> (\<open>None\<close> while the loan is open).\<close>

record borrow_entry =
  user_id :: string
  borrow_date :: string
  return_date :: "string option"

record book =
  title :: string
  author :: string
  genre :: string
  book_id :: string
  is_borrowed :: bool
  borrow_history :: "borrow_entry list"
  rating :: real
  num_ratings :: int

text \<open>\<open>Book.__init__\<close>\<close>

definition Book :: "string \<Rightarrow> string \<Rightarrow> string \<Rightarrow> string \<Rightarrow> book" where
  "Book t a g i =
     \<lparr>title = t, author = a, genre = g, book_id = i, is_borrowed = False,
      borrow_history = [], rating = 0, num_ratings = 0\<rparr>"

text \<open>\<open>Book.add_rating\<close>. The division raises \<open>ZeroDivisionError\<close> when
  \<open>num_ratings + 1\<close> is zero; the right-hand side is evaluated before either attribute is
  assigned, so the object is unchanged when it raises.\<close>

definition add_rating :: "real \<Rightarrow> book \<Rightarrow> py_error + book" where
  "add_rating r b =
     (if 1 \<le> r \<and> r \<le> 5 then
        (if num_ratings b + 1 = 0 then Inl ZeroDivisionError
         else Inr (b\<lparr>rating := ((rating b * real_of_int (num_ratings b)) + r)
                                  / real_of_int (num_ratings b + 1),
                      num_ratings := num_ratings b + 1\<rparr>))
      else Inr b)"

text \<open>\<open>Book.borrow\<close>: the returned flag and the object after the call.\<close>

definition borrow :: "string \<Rightarrow> string \<Rightarrow> book \<Rightarrow> bool \<times> book" where
  "borrow uid now b =
     (if \<not> is_borrowed b then
        (True, b\<lparr>is_borrowed := True,
                 borrow_history := borrow_history b @
                   [\<lparr>user_id = uid, borrow_date = now, return_date = None\<rparr>]\<rparr>)
      else (False, b))"

text \<open>\<open>self.borrow_history[-1]['return_date'] = now\<close>, guarded by \<open>if self.borrow_history\<close>.\<close>

definition close_last :: "string \<Rightarrow> borrow_entry list \<Rightarrow> borrow_entry list" where
  "close_last now h =
     (if h \<noteq> [] then butlast h @ [(last h)\<lparr>return_date := Some now\<rparr>] else h)"

text \<open>\<open>Book.return_book\<close>\<close>

definition return_book :: "string \<Rightarrow> book \<Rightarrow> bool \<times> book" where
  "return_book now b =
     (if is_borrowed b then
        (True, b\<lparr>is_borrowed := False,
                 borrow_history := close_last now (borrow_history b)\<rparr>)
      else (False, b))"

text \<open>A sequence of \<open>add_rating\<close> calls on one book; a call that raises leaves the book as it
  was (the interactive loop catches the exception and goes on).\<close>

fun add_ratings :: "real list \<Rightarrow> book \<Rightarrow> book" where
  "add_ratings [] b = b"
| "add_ratings (r # rs) b =
     (case add_rating r b of Inl e \<Rightarrow> add_ratings rs b | Inr b' \<Rightarrow> add_ratings rs b')"

subsection \<open>Serialisation\<close>

text \<open>The dict that \<open>to_dict\<close> builds and \<open>from_dict\<close> reads: every key of the persisted
  representation with its value when the key is present, \<open>None\<close> when the key is absent.\<close>

record book_dict =
  d_title :: "string option"
  d_author :: "string option"
  d_genre :: "string option"
  d_book_id :: "string option"
  d_is_borrowed :: "bool option"
  d_borrow_history :: "borrow_entry list option"
  d_rating :: "real option"
  d_num_ratings :: "int option"

text \<open>\<open>Book.to_dict\<close>\<close>

definition to_dict :: "book \<Rightarrow> book_dict" where
  "to_dict b =
     \<lparr>d_title = Some (title b), d_author = Some (author b), d_genre = Some (genre b),
      d_book_id = Some (book_id b), d_is_borrowed = Some (is_borrowed b),
      d_borrow_history = Some (borrow_history b), d_rating = Some (rating b),
      d_num_ratings = Some (num_ratings b)\<rparr>"

text \<open>\<open>data[key]\<close> raises \<open>KeyError\<close> on an absent key; \<open>data.get(key, default)\<close> does not.\<close>

definition subscript :: "string \<Rightarrow> 'a option \<Rightarrow> py_error + 'a" where
  "subscript k v = (case v of None \<Rightarrow> Inl (KeyError k) | Some x \<Rightarrow> Inr x)"

definition get_default :: "'a option \<Rightarrow> 'a \<Rightarrow> 'a" where
  "get_default v d = (case v of None \<Rightarrow> d | Some x \<Rightarrow> x)"

text \<open>\<open>Book.from_dict\<close>: the keys are read in the order of the source.\<close>

definition from_dict :: "book_dict \<Rightarrow> py_error + book" where
  "from_dict data =
     (case subscript ''title'' (d_title data) of Inl e \<Rightarrow> Inl e | Inr t \<Rightarrow>
      case subscript ''author'' (d_author data) of Inl e \<Rightarrow> Inl e | Inr a \<Rightarrow>
      case subscript ''genre'' (d_genre data) of Inl e \<Rightarrow> Inl e | Inr g \<Rightarrow>
      case subscript ''book_id'' (d_book_id data) of Inl e \<Rightarrow> Inl e | Inr i \<Rightarrow>
      case subscript ''is_borrowed'' (d_is_borrowed data) of Inl e \<Rightarrow> Inl e | Inr ib \<Rightarrow>
      case subscript ''borrow_history'' (d_borrow_history data) of Inl e \<Rightarrow> Inl e | Inr h \<Rightarrow>
        Inr ((Book t a g i)\<lparr>is_borrowed := ib, borrow_history := h,
                              rating := get_default (d_rating data) 0,
                              num_ratings := get_default (d_num_ratings data) 0\<rparr>))"

subsection \<open>Library\<close>

text \<open>The state of a \<open>Library\<close>: the list \<open>self.books\<close> and the decoded contents of
  \<open>library_data.json\<close> (\<open>None\<close> when the file does not exist). The JSON text itself and
  failures of the file system are not modelled.\<close>

record library =
  books :: "book list"
  disk :: "book_dict list option"

text \<open>\<open>Library.save_books\<close>\<close>

definition save_books :: "library \<Rightarrow> library" where
  "save_books L = L\<lparr>disk := Some (map to_dict (books L))\<rparr>"

text \<open>\<open>[Book.from_dict(book_data) for book_data in data]\<close>: the first exception ends it.\<close>

fun from_dicts :: "book_dict list \<Rightarrow> py_error + book list" where
  "from_dicts [] = Inr []"
| "from_dicts (d # ds) =
     (case from_dict d of
        Inl e \<Rightarrow> Inl e
      | Inr b \<Rightarrow> (case from_dicts ds of Inl e \<Rightarrow> Inl e | Inr bs \<Rightarrow> Inr (b # bs)))"

text \<open>\<open>Library.load_books\<close>: an exception empties the list.\<close>

definition load_books :: "library \<Rightarrow> library" where
  "load_books L =
     (case disk L of
        None \<Rightarrow> L
      | Some data \<Rightarrow>
          (case from_dicts data of Inl e \<Rightarrow> L\<lparr>books := []\<rparr> | Inr bs \<Rightarrow> L\<lparr>books := bs\<rparr>))"

text \<open>\<open>Library.__init__\<close>, run on the contents \<open>d\<close> of the file.\<close>

definition Library :: "book_dict list option \<Rightarrow> library" where
  "Library d = load_books \<lparr>books = [], disk = d\<rparr>"

text \<open>\<open>Library.add_book\<close>. The \<open>ValueError\<close> is caught inside the method and printed; the
  first component of the result is that error, or \<open>Inr ()\<close> after the success message.\<close>

definition add_book ::
  "string \<Rightarrow> string \<Rightarrow> string \<Rightarrow> string \<Rightarrow> library \<Rightarrow> (py_error + unit) \<times> library" where
  "add_book t a g i L =
     (if \<not> list_all (\<lambda>s. s \<noteq> []) [t, a, g, i]
        then (Inl (ValueError ''All fields must be filled''), L)
      else if list_ex (\<lambda>b. book_id b = i) (books L)
        then (Inl (ValueError ''Book ID already exists''), L)
      else (Inr (), save_books (L\<lparr>books := books L @ [Book t a g i]\<rparr>)))"

text \<open>\<open>next((b for b in library.books if b.book_id == book_id), None)\<close>, the lookup of the
  borrow, return and rate flows.\<close>

definition find_by_id :: "string \<Rightarrow> library \<Rightarrow> book option" where
  "find_by_id i L = find (\<lambda>b. book_id b = i) (books L)"

subsection \<open>Search\<close>

text \<open>
  \<open>str.lower\<close>. A \<open>str\<close> that holds only ASCII characters is lowercased character by
  character, \<open>A\<close> to \<open>Z\<close> becoming \<open>a\<close> to \<open>z\<close> and every other character staying as it is.
  Any other \<open>str\<close> is lowercased through the case mappings of the Unicode character
  database, which depend on the neighbouring characters and can change the length. The
  database is not part of the program: the lowercasing of the strings that are not ASCII is
  the parameter \<open>unicode_lower\<close>, on the UTF-8 encoding of the \<open>str\<close>.
\<close>

definition ascii_lower :: "char \<Rightarrow> char" where
  "ascii_lower c =
     (if CHR ''A'' \<le> c \<and> c \<le> CHR ''Z'' then char_of (of_char c + (32::nat)) else c)"

definition is_ascii :: "string \<Rightarrow> bool" where
  "is_ascii s = list_all (\<lambda>c. of_char c < (128::nat)) s"

definition lower :: "(string \<Rightarrow> string) \<Rightarrow> string \<Rightarrow> string" where
  "lower unicode_lower s = (if is_ascii s then map ascii_lower s else unicode_lower s)"

text \<open>\<open>Library.search_books\<close>. Python's \<open>a in b\<close> on strings is \<open>sublist a b\<close>; \<open>sorted\<close> with a
  key is the stable sort \<open>sort_key\<close>, the key tuples compared lexicographically.\<close>

definition search_books ::
  "(string \<Rightarrow> string) \<Rightarrow> string \<Rightarrow> string \<Rightarrow> book list \<Rightarrow> book list" where
  "search_books unicode_lower search_term search_type bs =
     (let st = lower unicode_lower search_term;
          results =
            (if search_type = ''title''
               then filter (\<lambda>b. sublist st (lower unicode_lower (title b))) bs
             else if search_type = ''author''
               then filter (\<lambda>b. sublist st (lower unicode_lower (author b))) bs
             else if search_type = ''genre''
               then filter (\<lambda>b. sublist st (lower unicode_lower (genre b))) bs
             else filter (\<lambda>b. sublist st (lower unicode_lower (title b)) \<or>
                              sublist st (lower unicode_lower (author b)) \<or>
                              sublist st (lower unicode_lower (genre b))) bs)
      in sort_key (\<lambda>x. (- rating x, title x)) results)"

text \<open>
  Two values of \<open>str.lower\<close> on Greek text, UTF-8 encoded: the capital sigma alone (bytes
  CE A3) becomes the small sigma (CF 83), and capital alpha followed by capital sigma
  (CE 91 CE A3) becomes small alpha followed by the final sigma (CE B1 CF 82), the form of
  the small sigma at the end of a word. Every other string is left as it is here.
\<close>

definition sigma_lower :: "string \<Rightarrow> string" where
  "sigma_lower s =
     (if s = [CHR 0xCE, CHR 0xA3] then [CHR 0xCF, CHR 0x83]
      else if s = [CHR 0xCE, CHR 0x91, CHR 0xCE, CHR 0xA3]
        then [CHR 0xCE, CHR 0xB1, CHR 0xCF, CHR 0x82]
      else s)"

subsection \<open>Dictionaries with a default\<close>

text \<open>A \<open>defaultdict\<close> is an association list in insertion order; reading a missing key
  gives the default.\<close>

definition dd_get :: "('k \<times> int) list \<Rightarrow> 'k \<Rightarrow> int" where
  "dd_get d k = (case map_of d k of None \<Rightarrow> 0 | Some v \<Rightarrow> v)"

text \<open>\<open>d[k] += 1\<close> on a \<open>defaultdict(int)\<close>\<close>

definition dd_incr :: "'k \<Rightarrow> ('k \<times> int) list \<Rightarrow> ('k \<times> int) list" where
  "dd_incr k d = AList.update k (dd_get d k + 1) d"

definition dl_get :: "('k \<times> 'v list) list \<Rightarrow> 'k \<Rightarrow> 'v list" where
  "dl_get d k = (case map_of d k of None \<Rightarrow> [] | Some v \<Rightarrow> v)"

text \<open>\<open>d[k].append(v)\<close> on a \<open>defaultdict(list)\<close>\<close>

definition dl_append :: "'k \<Rightarrow> 'v \<Rightarrow> ('k \<times> 'v list) list \<Rightarrow> ('k \<times> 'v list) list" where
  "dl_append k v d = AList.update k (dl_get d k @ [v]) d"

subsection \<open>Recommendations\<close>

text \<open>The first loop of \<open>generate_recommendations\<close>: the pair \<open>(user_genres, user_authors)\<close>.\<close>

definition count_record ::
  "string \<Rightarrow> book \<Rightarrow> borrow_entry \<Rightarrow>
   (string \<times> int) list \<times> (string \<times> int) list \<Rightarrow> (string \<times> int) list \<times> (string \<times> int) list" where
  "count_record uid b r acc =
     (if user_id r = uid then (dd_incr (genre b) (fst acc), dd_incr (author b) (snd acc))
      else acc)"

definition analyze_history ::
  "string \<Rightarrow> book list \<Rightarrow> (string \<times> int) list \<times> (string \<times> int) list" where
  "analyze_history uid bs =
     fold (\<lambda>b acc. fold (count_record uid b) (borrow_history b) acc) bs ([], [])"

definition score :: "(string \<times> int) list \<Rightarrow> (string \<times> int) list \<Rightarrow> book \<Rightarrow> real" where
  "score user_genres user_authors b =
     real_of_int (dd_get user_genres (genre b) * 2 + dd_get user_authors (author b) * 3)
       + rating b"

text \<open>
  \<open>sorted(recommendations, reverse=True)\<close> compares the tuples \<open>(score, book)\<close> with \<open><\<close>. Two
  tuples with different scores are ordered by the scores. Two tuples with the same score
  fall through to their second components: these are two different \<open>Book\<close> objects (every
  entry of \<open>self.books\<close> is an object of its own), \<open>Book\<close> defines neither \<open>__eq__\<close> nor
  \<open>__lt__\<close>, and the comparison raises \<open>TypeError\<close>.
\<close>

definition tuple_lt :: "real \<times> book \<Rightarrow> real \<times> book \<Rightarrow> py_error + bool" where
  "tuple_lt x y = (if fst x = fst y then Inl TypeError else Inr (fst x < fst y))"

text \<open>
  The sort, as an insertion sort over \<open>tuple_lt\<close> in which the first exception ends the
  sort. Python's own algorithm makes other comparisons in another order, but it returns the
  same value: a sort that finishes has compared every two elements that end up next to
  each other, so it raises exactly when two entries have the same score, and without a
  raise the scores are distinct and the sorted list is unique. With \<open>reverse=True\<close> Python
  reverses the list, sorts it ascending and reverses the result.
\<close>

fun insort_lt :: "real \<times> book \<Rightarrow> (real \<times> book) list \<Rightarrow> py_error + (real \<times> book) list" where
  "insort_lt x [] = Inr [x]"
| "insort_lt x (y # ys) =
     (case tuple_lt x y of
        Inl e \<Rightarrow> Inl e
      | Inr lt \<Rightarrow>
          (if lt then Inr (x # y # ys)
           else (case insort_lt x ys of Inl e \<Rightarrow> Inl e | Inr zs \<Rightarrow> Inr (y # zs))))"

fun sort_lt :: "(real \<times> book) list \<Rightarrow> py_error + (real \<times> book) list" where
  "sort_lt [] = Inr []"
| "sort_lt (x # xs) = (case sort_lt xs of Inl e \<Rightarrow> Inl e | Inr ys \<Rightarrow> insort_lt x ys)"

definition sorted_reverse :: "(real \<times> book) list \<Rightarrow> py_error + (real \<times> book) list" where
  "sorted_reverse xs = (case sort_lt (rev xs) of Inl e \<Rightarrow> Inl e | Inr ys \<Rightarrow> Inr (rev ys))"

text \<open>The second loop: the list \<open>recommendations\<close>. The test \<open>book not in recommendations\<close>
  compares a \<open>Book\<close> with tuples and is always true. Reading a missing key of a
  \<open>defaultdict\<close> inserts the default, which no later read observes.\<close>

definition candidates ::
  "(string \<times> int) list \<Rightarrow> (string \<times> int) list \<Rightarrow> book list \<Rightarrow> (real \<times> book) list" where
  "candidates user_genres user_authors bs =
     map (\<lambda>b. (score user_genres user_authors b, b))
       (filter (\<lambda>b. \<not> is_borrowed b \<and> 0 < score user_genres user_authors b) bs)"

text \<open>\<open>Library.generate_recommendations\<close>\<close>

definition generate_recommendations :: "string \<Rightarrow> book list \<Rightarrow> py_error + book list" where
  "generate_recommendations uid bs =
     (let user = analyze_history uid bs;
          recommendations = candidates (fst user) (snd user) bs
      in case sorted_reverse recommendations of
           Inl e \<Rightarrow> Inl e
         | Inr s \<Rightarrow> Inr (map snd (take 5 s)))"

subsection \<open>Statistics\<close>

record stats =
  genres :: "(string \<times> int) list"
  authors :: "(string \<times> int) list"
  ratings :: "(string \<times> real list) list"
  borrow_frequency :: "(string \<times> int) list"

text \<open>The body of the loop of \<open>generate_statistics\<close>.\<close>

definition stats_step :: "book \<Rightarrow> stats \<Rightarrow> stats" where
  "stats_step b s =
     s\<lparr>genres := dd_incr (genre b) (genres s),
       authors := dd_incr (author b) (authors s),
       ratings := (if 0 < num_ratings b then dl_append (genre b) (rating b) (ratings s)
                   else ratings s),
       borrow_frequency :=
         AList.update (title b) (int (length (borrow_history b))) (borrow_frequency s)\<rparr>"

text \<open>\<open>Library.generate_statistics\<close>\<close>

definition generate_statistics :: "book list \<Rightarrow> stats" where
  "generate_statistics bs =
     fold stats_step bs \<lparr>genres = [], authors = [], ratings = [], borrow_frequency = []\<rparr>"

subsection \<open>Store states\<close>

text \<open>A record operation applied to the record at position \<open>k\<close> of the store.\<close>

definition on_record :: "nat \<Rightarrow> (book \<Rightarrow> book) \<Rightarrow> library \<Rightarrow> library" where
  "on_record k f L = L\<lparr>books := (books L)[k := f (books L ! k)]\<rparr>"

text \<open>\<open>add_rating\<close> as the interactive loop runs it: an exception is caught and the record
  stays as it was.\<close>

definition rate :: "real \<Rightarrow> book \<Rightarrow> book" where
  "rate r b = (case add_rating r b of Inl e \<Rightarrow> b | Inr b' \<Rightarrow> b')"

text \<open>The store states that the core operations produce from an empty store: \<open>add_book\<close>
  with any arguments, and \<open>borrow\<close>, \<open>return_book\<close> and \<open>add_rating\<close> with any arguments on
  any record of the store, each followed or not by \<open>save_books\<close>.\<close>

inductive reachable :: "library \<Rightarrow> bool" where
  reach_empty: "reachable \<lparr>books = [], disk = d\<rparr>"
| reach_add: "reachable L \<Longrightarrow> reachable (snd (add_book t a g i L))"
| reach_borrow: "reachable L \<Longrightarrow> k < length (books L) \<Longrightarrow>
     reachable (on_record k (\<lambda>b. snd (borrow uid now b)) L)"
| reach_return: "reachable L \<Longrightarrow> k < length (books L) \<Longrightarrow>
     reachable (on_record k (\<lambda>b. snd (return_book now b)) L)"
| reach_rate: "reachable L \<Longrightarrow> k < length (books L) \<Longrightarrow>
     reachable (on_record k (rate r) L)"
| reach_save: "reachable L \<Longrightarrow> reachable (save_books L)"

subsection \<open>The search criteria in the words of the specification\<close>




text \<open>The order of the results: descending rating first, ascending title second.\<close>

definition ranked_before :: "book \<Rightarrow> book \<Rightarrow> bool" where
  "ranked_before x y =
     (rating y < rating x \<or> (rating x = rating y \<and> title x \<le> title y))"

subsection \<open>The recommendation score in the words of the specification\<close>

text \<open>The number of history entries of a record that belong to a borrower, and the
  borrower's counts per genre and per author over the catalog.\<close>

definition borrow_count :: "string \<Rightarrow> book \<Rightarrow> nat" where
  "borrow_count uid b = length (filter (\<lambda>r. user_id r = uid) (borrow_history b))"

definition genre_count :: "string \<Rightarrow> book list \<Rightarrow> string \<Rightarrow> nat" where
  "genre_count uid bs g = sum_list (map (borrow_count uid) (filter (\<lambda>b. genre b = g) bs))"

definition author_count :: "string \<Rightarrow> book list \<Rightarrow> string \<Rightarrow> nat" where
  "author_count uid bs a = sum_list (map (borrow_count uid) (filter (\<lambda>b. author b = a) bs))"

definition spec_score :: "string \<Rightarrow> book list \<Rightarrow> book \<Rightarrow> real" where
  "spec_score uid bs b =
     real (genre_count uid bs (genre b)) * 2 + real (author_count uid bs (author b)) * 3
       + rating b"

text \<open>The records that the recommender ranks: not borrowed, with a positive score.\<close>

definition eligible :: "string \<Rightarrow> book list \<Rightarrow> book list" where
  "eligible uid bs = filter (\<lambda>b. \<not> is_borrowed b \<and> 0 < spec_score uid bs b) bs"

subsection \<open>Invariants\<close>

text \<open>The invariant of the rating accumulator: the count is never negative, an unrated
  book has average 0, and a rated book has its average in [1, 5].\<close>

definition rating_ok :: "book \<Rightarrow> bool" where
  "rating_ok b =
     (0 \<le> num_ratings b \<and>
      (if num_ratings b = 0 then rating b = 0 else 1 \<le> rating b \<and> rating b \<le> 5))"

text \<open>The invariant of the borrow ledger: every entry before the last is closed, and the
  last entry is open exactly when the book is borrowed.\<close>

definition history_ok :: "book \<Rightarrow> bool" where
  "history_ok b =
     (list_all (\<lambda>e. return_date e \<noteq> None) (butlast (borrow_history b)) \<and>
      (is_borrowed b \<longleftrightarrow>
         borrow_history b \<noteq> [] \<and> return_date (last (borrow_history b)) = None))"

text \<open>The invariants of a record as the data model states them: the average is in [0, 5]
  once the count is positive and exactly 0 otherwise; the last history entry has no return
  date if and only if the record is borrowed; at most one history entry is open.\<close>

definition record_inv :: "book \<Rightarrow> bool" where
  "record_inv b =
     ((if 0 < num_ratings b then 0 \<le> rating b \<and> rating b \<le> 5 else rating b = 0) \<and>
      (is_borrowed b \<longleftrightarrow>
         borrow_history b \<noteq> [] \<and> return_date (last (borrow_history b)) = None) \<and>
      length (filter (\<lambda>e. return_date e = None) (borrow_history b)) \<le> 1)"

text \<open>The invariants of the store: ids are unique, and every record has its invariants.\<close>

definition store_inv :: "library \<Rightarrow> bool" where
  "store_inv L = (distinct (map book_id (books L)) \<and> list_all record_inv (books L))"

section \<open>Properties\<close>

subsection \<open>Rating accumulator\<close>

lemma running_mean_bounds:
  fixes a r :: real and n :: int
  assumes "0 \<le> n" "1 \<le> r" "r \<le> 5" "n = 0 \<or> (1 \<le> a \<and> a \<le> 5)"
  shows "1 \<le> (a * real_of_int n + r) / real_of_int (n + 1)"
    and "(a * real_of_int n + r) / real_of_int (n + 1) \<le> 5"
proof -
  let ?n = "real_of_int n"
  have n0: "0 \<le> ?n" using assms(1) by simp
  have pos: "0 < real_of_int (n + 1)" using assms(1) by simp
  have lo: "?n \<le> a * ?n"
  proof (cases "n = 0")
    case True then show ?thesis by simp
  next
    case False
    with assms(4) have "1 \<le> a" by simp
    then have "1 * ?n \<le> a * ?n" using n0 by (rule mult_right_mono)
    then show ?thesis by simp
  qed
  have hi: "a * ?n \<le> 5 * ?n"
  proof (cases "n = 0")
    case True then show ?thesis by simp
  next
    case False
    with assms(4) have "a \<le> 5" by simp
    then show ?thesis using n0 by (rule mult_right_mono)
  qed
  have "real_of_int (n + 1) \<le> a * ?n + r" using lo assms(2) by simp
  then show "1 \<le> (a * ?n + r) / real_of_int (n + 1)"
    using pos by (simp add: le_divide_eq)
  have "a * ?n + r \<le> 5 * real_of_int (n + 1)" using hi assms(3) by simp
  then show "(a * ?n + r) / real_of_int (n + 1) \<le> 5"
    using pos by (simp add: divide_le_eq)
qed

lemma rating_ok_Book: "rating_ok (Book t a g i)"
  by (simp add: rating_ok_def Book_def)

lemma add_rating_rating_ok:
  assumes "rating_ok b" "add_rating r b = Inr b'"
  shows "rating_ok b'"
proof (cases "1 \<le> r \<and> r \<le> 5")
  case False
  with assms show ?thesis by (auto simp: add_rating_def)
next
  case True
  from assms(1) have n: "0 \<le> num_ratings b"
    and a: "num_ratings b = 0 \<or> (1 \<le> rating b \<and> rating b \<le> 5)"
    by (auto simp: rating_ok_def split: if_splits)
  from n have nz: "num_ratings b + 1 \<noteq> 0" by simp
  from True nz assms(2) have b': "b' = b\<lparr>rating := ((rating b * real_of_int (num_ratings b)) + r)
                                  / real_of_int (num_ratings b + 1),
                      num_ratings := num_ratings b + 1\<rparr>"
    by (simp add: add_rating_def)
  from True have r1: "1 \<le> r" and r5: "r \<le> 5" by simp_all
  note bnd = running_mean_bounds [OF n r1 r5 a]
  show ?thesis using n bnd by (simp add: rating_ok_def b')
qed

lemma add_rating_no_raise:
  "0 \<le> num_ratings b \<Longrightarrow> \<exists>b'. add_rating r b = Inr b'"
  by (simp add: add_rating_def)

lemma add_ratings_rating_ok: "rating_ok b \<Longrightarrow> rating_ok (add_ratings rs b)"
proof (induction rs arbitrary: b)
  case Nil
  then show ?case by simp
next
  case (Cons r rs)
  show ?case
  proof (cases "add_rating r b")
    case (Inl e)
    then show ?thesis using Cons by simp
  next
    case (Inr b')
    then have "rating_ok b'" using Cons.prems by (rule add_rating_rating_ok [rotated])
    then show ?thesis using Cons.IH Inr by simp
  qed
qed

text \<open>
  Claim C3. For a record whose rating count is not negative (the data model's ratingCount)
  and every value: when the value lies in [1, 5], \<open>add_rating\<close> returns without raising, sets
  the average to \<open>(old average * count + value) / (count + 1)\<close> and adds one to the count;
  when the value lies outside [1, 5] it returns without raising and leaves the record as it
  was. On a fresh record \<open>add_rating 3\<close> gives average 3 with count 1, and \<open>add_rating 5\<close>
  after it gives average 4 with count 2.
\<close>

theorem add_rating_spec:
  "0 \<le> num_ratings b \<Longrightarrow>
     add_rating r b =
       (if 1 \<le> r \<and> r \<le> 5
        then Inr (b\<lparr>rating := (rating b * real_of_int (num_ratings b) + r)
                                  / real_of_int (num_ratings b + 1),
                     num_ratings := num_ratings b + 1\<rparr>)
        else Inr b)
     \<and> add_rating 3 (Book t a g i) = Inr ((Book t a g i)\<lparr>rating := 3, num_ratings := 1\<rparr>)
     \<and> add_rating 5 ((Book t a g i)\<lparr>rating := 3, num_ratings := 1\<rparr>)
         = Inr ((Book t a g i)\<lparr>rating := 4, num_ratings := 2\<rparr>)"
  by (simp add: add_rating_def Book_def)

theorem add_rating_spec_witness:
  "0 \<le> num_ratings (Book ''Dune'' ''Herbert'' ''Sci-Fi'' ''b1'')
   \<and> add_rating 3 (Book ''Dune'' ''Herbert'' ''Sci-Fi'' ''b1'')
       = Inr ((Book ''Dune'' ''Herbert'' ''Sci-Fi'' ''b1'')\<lparr>rating := 3, num_ratings := 1\<rparr>)
   \<and> add_rating 6 (Book ''Dune'' ''Herbert'' ''Sci-Fi'' ''b1'')
       = Inr (Book ''Dune'' ''Herbert'' ''Sci-Fi'' ''b1'')
   \<and> add_rating 0 (Book ''Dune'' ''Herbert'' ''Sci-Fi'' ''b1'')
       = Inr (Book ''Dune'' ''Herbert'' ''Sci-Fi'' ''b1'')"
proof -
  have h: "0 \<le> num_ratings (Book ''Dune'' ''Herbert'' ''Sci-Fi'' ''b1'')"
    by (simp add: Book_def)
  show ?thesis
    using h add_rating_spec [OF h, of 3 t a g i]
      add_rating_spec [OF h, of 6 t a g i] add_rating_spec [OF h, of 0 t a g i]
    by (simp add: Book_def)
qed

text \<open>
  Claim C10. A record that starts unrated (a fresh \<open>Book\<close>) and whose ratings were all added
  by \<open>add_rating\<close> has, whenever its rating count is positive, an average in [1, 5].
\<close>

theorem add_ratings_average_in_1_5:
  "0 < num_ratings (add_ratings rs (Book t a g i)) \<Longrightarrow>
     1 \<le> rating (add_ratings rs (Book t a g i)) \<and> rating (add_ratings rs (Book t a g i)) \<le> 5"
  using add_ratings_rating_ok [OF rating_ok_Book, of rs t a g i]
  by (auto simp: rating_ok_def split: if_splits)

theorem add_ratings_average_in_1_5_witness:
  "0 < num_ratings (add_ratings [3, 5, 7] (Book ''Dune'' ''Herbert'' ''Sci-Fi'' ''b1''))
   \<and> rating (add_ratings [3, 5, 7] (Book ''Dune'' ''Herbert'' ''Sci-Fi'' ''b1'')) = 4"
proof -
  have e: "add_ratings [3, 5, 7] (Book ''Dune'' ''Herbert'' ''Sci-Fi'' ''b1'')
             = (Book ''Dune'' ''Herbert'' ''Sci-Fi'' ''b1'')\<lparr>rating := 4, num_ratings := 2\<rparr>"
    by (simp add: add_rating_def Book_def)
  have h: "0 < num_ratings (add_ratings [3, 5, 7] (Book ''Dune'' ''Herbert'' ''Sci-Fi'' ''b1''))"
    unfolding e by simp
  show ?thesis
    using h add_ratings_average_in_1_5 [OF h] unfolding e by simp
qed

subsection \<open>Borrowing and returning\<close>

lemma close_last_props:
  "length (close_last now h) = length h"
  "h \<noteq> [] \<Longrightarrow> butlast (close_last now h) = butlast h"
  "h \<noteq> [] \<Longrightarrow> last (close_last now h) = (last h)\<lparr>return_date := Some now\<rparr>"
  by (simp_all add: close_last_def)

text \<open>
  Claim C4. \<open>borrow\<close> on a borrowed record returns false and changes nothing; on an
  unborrowed record it returns true, sets the flag and appends an entry with the borrower,
  the timestamp and no return date. \<open>return_book\<close> on an unborrowed record returns false and
  changes nothing; on a borrowed record it returns true, clears the flag, keeps every other
  field and the length of the history, and sets the return date of the last history entry,
  the entries before it unchanged. A second \<open>return_book\<close> in a row returns false and
  changes nothing.
\<close>

theorem borrow_return_spec:
  "(is_borrowed b \<longrightarrow> borrow uid now b = (False, b))
   \<and> (\<not> is_borrowed b \<longrightarrow>
        fst (borrow uid now b) = True
        \<and> snd (borrow uid now b) =
            b\<lparr>is_borrowed := True,
              borrow_history := borrow_history b @
                [\<lparr>user_id = uid, borrow_date = now, return_date = None\<rparr>]\<rparr>)
   \<and> (\<not> is_borrowed b \<longrightarrow> return_book now b = (False, b))
   \<and> (is_borrowed b \<longrightarrow>
        fst (return_book now b) = True
        \<and> snd (return_book now b) =
            b\<lparr>is_borrowed := False, borrow_history := borrow_history (snd (return_book now b))\<rparr>
        \<and> length (borrow_history (snd (return_book now b))) = length (borrow_history b)
        \<and> (borrow_history b \<noteq> [] \<longrightarrow>
             butlast (borrow_history (snd (return_book now b))) = butlast (borrow_history b)
             \<and> last (borrow_history (snd (return_book now b)))
                 = (last (borrow_history b))\<lparr>return_date := Some now\<rparr>))
   \<and> return_book now' (snd (return_book now b)) = (False, snd (return_book now b))"
  by (simp add: borrow_def return_book_def close_last_props)

theorem borrow_return_spec_witness:
  "\<not> is_borrowed (Book ''Dune'' ''Herbert'' ''Sci-Fi'' ''b1'')
   \<and> borrow ''u1'' ''t1'' (Book ''Dune'' ''Herbert'' ''Sci-Fi'' ''b1'') =
       (True, (Book ''Dune'' ''Herbert'' ''Sci-Fi'' ''b1'')
          \<lparr>is_borrowed := True,
           borrow_history := [\<lparr>user_id = ''u1'', borrow_date = ''t1'', return_date = None\<rparr>]\<rparr>)
   \<and> is_borrowed (snd (borrow ''u1'' ''t1'' (Book ''Dune'' ''Herbert'' ''Sci-Fi'' ''b1'')))
   \<and> borrow_history (snd (borrow ''u1'' ''t1'' (Book ''Dune'' ''Herbert'' ''Sci-Fi'' ''b1''))) \<noteq> []
   \<and> borrow ''u2'' ''t2'' (snd (borrow ''u1'' ''t1'' (Book ''Dune'' ''Herbert'' ''Sci-Fi'' ''b1'')))
       = (False, snd (borrow ''u1'' ''t1'' (Book ''Dune'' ''Herbert'' ''Sci-Fi'' ''b1'')))
   \<and> return_book ''t2'' (snd (borrow ''u1'' ''t1'' (Book ''Dune'' ''Herbert'' ''Sci-Fi'' ''b1''))) =
       (True, (Book ''Dune'' ''Herbert'' ''Sci-Fi'' ''b1'')
          \<lparr>borrow_history :=
             [\<lparr>user_id = ''u1'', borrow_date = ''t1'', return_date = Some ''t2''\<rparr>]\<rparr>)
   \<and> return_book ''t2'' (Book ''Dune'' ''Herbert'' ''Sci-Fi'' ''b1'')
       = (False, Book ''Dune'' ''Herbert'' ''Sci-Fi'' ''b1'')"
  using borrow_return_spec [of "Book ''Dune'' ''Herbert'' ''Sci-Fi'' ''b1''" "''u1''" "''t1''" "''t2''"]
    borrow_return_spec [of "snd (borrow ''u1'' ''t1'' (Book ''Dune'' ''Herbert'' ''Sci-Fi'' ''b1''))"
      "''u2''" "''t2''" "''t3''"]
  by (simp add: Book_def borrow_def return_book_def close_last_def)

subsection \<open>Serialisation round trip\<close>

lemma from_dict_to_dict: "from_dict (to_dict b) = Inr b"
  by (simp add: from_dict_def to_dict_def subscript_def get_default_def Book_def)

lemma from_dicts_to_dict: "from_dicts (map to_dict bs) = Inr bs"
  by (induction bs) (simp_all add: from_dict_to_dict)

text \<open>
  Claim C6. Deserialising the serialised form of a record gives back the record, field for
  field; this covers a fresh record, with empty history and no ratings. When the key of the
  rating average, of the rating count, or both are absent from the representation, the
  deserialised record has 0 there and every other field as given. Saving a store and
  loading it again, into the same library or into a new one, gives the same sequence of
  records.
\<close>

theorem to_dict_from_dict_roundtrip:
  "from_dict (to_dict b) = Inr b
   \<and> from_dict (to_dict (Book t a g i)) = Inr (Book t a g i)
   \<and> from_dict ((to_dict b)\<lparr>d_rating := None\<rparr>) = Inr (b\<lparr>rating := 0\<rparr>)
   \<and> from_dict ((to_dict b)\<lparr>d_num_ratings := None\<rparr>) = Inr (b\<lparr>num_ratings := 0\<rparr>)
   \<and> from_dict ((to_dict b)\<lparr>d_rating := None, d_num_ratings := None\<rparr>)
       = Inr (b\<lparr>rating := 0, num_ratings := 0\<rparr>)
   \<and> books (load_books (save_books L)) = books L
   \<and> books (Library (disk (save_books L))) = books L"
  by (simp add: from_dict_to_dict Library_def load_books_def save_books_def from_dicts_to_dict)
     (simp add: from_dict_def to_dict_def subscript_def get_default_def Book_def)

theorem to_dict_from_dict_roundtrip_witness:
  "from_dict (to_dict ((Book ''Dune'' ''Herbert'' ''Sci-Fi'' ''b1'')
      \<lparr>is_borrowed := True,
       borrow_history := [\<lparr>user_id = ''u1'', borrow_date = ''t1'', return_date = None\<rparr>],
       rating := 4, num_ratings := 2\<rparr>))
   = Inr ((Book ''Dune'' ''Herbert'' ''Sci-Fi'' ''b1'')
      \<lparr>is_borrowed := True,
       borrow_history := [\<lparr>user_id = ''u1'', borrow_date = ''t1'', return_date = None\<rparr>],
       rating := 4, num_ratings := 2\<rparr>)"
  using to_dict_from_dict_roundtrip [of "(Book ''Dune'' ''Herbert'' ''Sci-Fi'' ''b1'')
      \<lparr>is_borrowed := True,
       borrow_history := [\<lparr>user_id = ''u1'', borrow_date = ''t1'', return_date = None\<rparr>],
       rating := 4, num_ratings := 2\<rparr>"]
  by simp

subsection \<open>Adding a book\<close>

lemma find_append_new:
  "\<not> list_ex P xs \<Longrightarrow> P x \<Longrightarrow> find P (xs @ [x]) = Some x"
  by (induction xs) simp_all

text \<open>
  Claim C5. \<open>add_book\<close> with an empty field reports the validation error (the \<open>ValueError\<close>
  "All fields must be filled") and leaves the store as it was. With all fields filled and an
  id that a record of the store already has, it reports the duplicate-id error (the
  \<open>ValueError\<close> "Book ID already exists") and leaves the store as it was; with an id already
  present the size of the store never changes. Otherwise it reports success and appends
  exactly one record, with the given fields and not borrowed, and looking the id up
  afterwards finds that record.
\<close>

theorem add_book_spec:
  "(t = [] \<or> a = [] \<or> g = [] \<or> i = [] \<longrightarrow>
      add_book t a g i L = (Inl (ValueError ''All fields must be filled''), L))
   \<and> (t \<noteq> [] \<and> a \<noteq> [] \<and> g \<noteq> [] \<and> i \<noteq> [] \<and> i \<in> book_id ` set (books L) \<longrightarrow>
      add_book t a g i L = (Inl (ValueError ''Book ID already exists''), L))
   \<and> (i \<in> book_id ` set (books L) \<longrightarrow>
      length (books (snd (add_book t a g i L))) = length (books L))
   \<and> (t \<noteq> [] \<and> a \<noteq> [] \<and> g \<noteq> [] \<and> i \<noteq> [] \<and> i \<notin> book_id ` set (books L) \<longrightarrow>
      fst (add_book t a g i L) = Inr ()
      \<and> books (snd (add_book t a g i L)) = books L @ [Book t a g i]
      \<and> (\<exists>b. find_by_id i (snd (add_book t a g i L)) = Some b
            \<and> title b = t \<and> author b = a \<and> genre b = g \<and> book_id b = i
            \<and> \<not> is_borrowed b \<and> borrow_history b = [] \<and> rating b = 0 \<and> num_ratings b = 0))"
proof -
  have ex: "list_ex (\<lambda>b. book_id b = i) (books L) \<longleftrightarrow> i \<in> book_id ` set (books L)"
    by (auto simp: list_ex_iff)
  have new: "i \<notin> book_id ` set (books L) \<Longrightarrow>
      find (\<lambda>b. book_id b = i) (books L @ [Book t a g i]) = Some (Book t a g i)"
    by (rule find_append_new) (simp_all add: ex Book_def)
  show ?thesis
    by (auto simp: add_book_def ex save_books_def find_by_id_def new) (simp_all add: Book_def)
qed

theorem add_book_spec_witness:
  "add_book '''' ''Herbert'' ''Sci-Fi'' ''b1'' \<lparr>books = [], disk = None\<rparr>
     = (Inl (ValueError ''All fields must be filled''), \<lparr>books = [], disk = None\<rparr>)
   \<and> ''b1'' \<notin> book_id ` set (books \<lparr>books = [], disk = None\<rparr>)
   \<and> books (snd (add_book ''Dune'' ''Herbert'' ''Sci-Fi'' ''b1'' \<lparr>books = [], disk = None\<rparr>))
       = [Book ''Dune'' ''Herbert'' ''Sci-Fi'' ''b1'']
   \<and> ''b1'' \<in> book_id ` set (books
          (snd (add_book ''Dune'' ''Herbert'' ''Sci-Fi'' ''b1'' \<lparr>books = [], disk = None\<rparr>)))
   \<and> fst (add_book ''Emma'' ''Austen'' ''Novel'' ''b1''
          (snd (add_book ''Dune'' ''Herbert'' ''Sci-Fi'' ''b1'' \<lparr>books = [], disk = None\<rparr>)))
       = Inl (ValueError ''Book ID already exists'')"
  using add_book_spec [of "''''" "''Herbert''" "''Sci-Fi''" "''b1''" "\<lparr>books = [], disk = None\<rparr>"]
    add_book_spec [of "''Dune''" "''Herbert''" "''Sci-Fi''" "''b1''" "\<lparr>books = [], disk = None\<rparr>"]
    add_book_spec [of "''Emma''" "''Austen''" "''Novel''" "''b1''"
      "snd (add_book ''Dune'' ''Herbert'' ''Sci-Fi'' ''b1'' \<lparr>books = [], disk = None\<rparr>)"]
  by (simp add: Book_def)

subsection \<open>Search\<close>








lemma lower_Nil: "lower ul [] = []"
  by (simp add: lower_def is_ascii_def)

lemma sorted_by_rank: "sorted_wrt ranked_before (sort_key (\<lambda>x. (- rating x, title x)) xs)"
proof -
  have "sorted (map (\<lambda>x. (- rating x, title x)) (sort_key (\<lambda>x. (- rating x, title x)) xs))"
    by (rule sorted_sort_key)
  then have "sorted_wrt (\<lambda>x y. (- rating x, title x) \<le> (- rating y, title y))
               (sort_key (\<lambda>x. (- rating x, title x)) xs)"
    by (simp add: sorted_map)
  then show ?thesis
    by (rule sorted_wrt_mono_rel [rotated]) (auto simp: ranked_before_def less_eq_prod_def)
qed

lemma search_books_sorted: "sorted_wrt ranked_before (search_books ul t ty bs)"
  by (simp add: search_books_def Let_def sorted_by_rank)










text \<open>
  Claim C9. For every catalog and every field choice, \<open>search_books\<close> with the empty term
  returns every record of the catalog, ordered by descending rating, then ascending title.
\<close>

theorem search_books_empty_term:
  "search_books ul [] ty bs = sort_key (\<lambda>x. (- rating x, title x)) bs
   \<and> mset (search_books ul [] ty bs) = mset bs
   \<and> length (search_books ul [] ty bs) = length bs
   \<and> sorted_wrt ranked_before (search_books ul [] ty bs)"
proof -
  have "search_books ul [] ty bs = sort_key (\<lambda>x. (- rating x, title x)) bs"
    by (simp add: search_books_def Let_def lower_Nil)
  then show ?thesis using search_books_sorted [of ul "[]" ty bs] by simp
qed

theorem search_books_empty_term_witness:
  "search_books sigma_lower [] ''genre'' [Book ''Emma'' ''Austen'' ''Novel'' ''b2'',
                              Book ''Dune'' ''Herbert'' ''Sci-Fi'' ''b1'']
     = [Book ''Dune'' ''Herbert'' ''Sci-Fi'' ''b1'', Book ''Emma'' ''Austen'' ''Novel'' ''b2'']"
  using search_books_empty_term [of sigma_lower "''genre''" "[Book ''Emma'' ''Austen'' ''Novel'' ''b2'',
                              Book ''Dune'' ''Herbert'' ''Sci-Fi'' ''b1'']"]
  by (simp add: Book_def)

subsection \<open>Counting dictionaries\<close>

lemma dd_get_Nil: "dd_get [] k = 0"
  by (simp add: dd_get_def)

lemma dl_get_Nil: "dl_get [] k = []"
  by (simp add: dl_get_def)

lemma dd_get_incr: "dd_get (dd_incr k d) k' = dd_get d k' + (if k = k' then 1 else 0)"
  by (simp add: dd_get_def dd_incr_def update_conv')

lemma sum_update:
  "sum_list (map snd (AList.update k v d)) = sum_list (map snd d) - dd_get d k + v"
  by (induction d) (auto simp: dd_get_def)

lemma sum_dd_incr: "sum_list (map snd (dd_incr k d)) = sum_list (map snd d) + 1"
  by (simp add: dd_incr_def sum_update)

lemma keys_dd_incr: "fst ` set (dd_incr k d) = insert k (fst ` set d)"
  by (simp add: dd_incr_def dom_update)

lemma distinct_dd_incr: "distinct (map fst d) \<Longrightarrow> distinct (map fst (dd_incr k d))"
  by (simp add: dd_incr_def distinct_update)

lemma dl_get_append: "dl_get (dl_append k v d) k' = dl_get d k' @ (if k = k' then [v] else [])"
  by (simp add: dl_get_def dl_append_def update_conv')

lemma keys_dl_append: "fst ` set (dl_append k v d) = insert k (fst ` set d)"
  by (simp add: dl_append_def dom_update)

text \<open>The loop \<open>for b in bs: d[f(b)] += 1\<close>.\<close>

lemma fold_incr_get:
  "dd_get (fold (\<lambda>b. dd_incr (f b)) bs d) k = dd_get d k + int (length (filter (\<lambda>b. f b = k) bs))"
  by (induction bs arbitrary: d) (simp_all add: dd_get_incr)

lemma fold_incr_sum:
  "sum_list (map snd (fold (\<lambda>b. dd_incr (f b)) bs d)) = sum_list (map snd d) + int (length bs)"
  by (induction bs arbitrary: d) (simp_all add: sum_dd_incr)

lemma fold_incr_keys:
  "fst ` set (fold (\<lambda>b. dd_incr (f b)) bs d) = fst ` set d \<union> f ` set bs"
  by (induction bs arbitrary: d) (auto simp: keys_dd_incr)

lemma fold_incr_distinct:
  "distinct (map fst d) \<Longrightarrow> distinct (map fst (fold (\<lambda>b. dd_incr (f b)) bs d))"
  by (induction bs arbitrary: d) (simp_all add: distinct_dd_incr)

subsection \<open>Statistics\<close>

lemma stats_genres:
  "genres (fold stats_step bs s) = fold (\<lambda>b. dd_incr (genre b)) bs (genres s)"
  by (induction bs arbitrary: s) (simp_all add: stats_step_def)

lemma stats_authors:
  "authors (fold stats_step bs s) = fold (\<lambda>b. dd_incr (author b)) bs (authors s)"
  by (induction bs arbitrary: s) (simp_all add: stats_step_def)

lemma stats_ratings_get:
  "dl_get (ratings (fold stats_step bs s)) g =
     dl_get (ratings s) g @ map rating (filter (\<lambda>b. genre b = g \<and> 0 < num_ratings b) bs)"
  by (induction bs arbitrary: s) (auto simp: stats_step_def dl_get_append)

lemma stats_ratings_keys:
  "fst ` set (ratings (fold stats_step bs s)) =
     fst ` set (ratings s) \<union> genre ` {b \<in> set bs. 0 < num_ratings b}"
  by (induction bs arbitrary: s) (auto simp: stats_step_def keys_dl_append)

lemma find_append:
  "find P (xs @ ys) = (case find P xs of None \<Rightarrow> find P ys | Some x \<Rightarrow> Some x)"
  by (induction xs) simp_all

lemma fold_update_last:
  "map_of (fold (\<lambda>b. AList.update (f b) (v b)) bs d) k =
     (case find (\<lambda>b. f b = k) (rev bs) of None \<Rightarrow> map_of d k | Some b \<Rightarrow> Some (v b))"
  by (induction bs arbitrary: d) (simp_all add: find_append update_conv' split: option.splits)

lemma stats_borrow_frequency:
  "borrow_frequency (fold stats_step bs s) =
     fold (\<lambda>b. AList.update (title b) (int (length (borrow_history b)))) bs (borrow_frequency s)"
  by (induction bs arbitrary: s) (simp_all add: stats_step_def)

lemma find_rev_last_with:
  "bs = xs @ b # ys \<Longrightarrow> P b \<Longrightarrow> \<forall>y \<in> set ys. \<not> P y \<Longrightarrow> find P (rev bs) = Some b"
proof -
  assume a: "bs = xs @ b # ys" "P b" "\<forall>y \<in> set ys. \<not> P y"
  from a(3) have "find P (rev ys) = None" by (simp add: find_None_iff)
  with a(1,2) show ?thesis by (simp add: find_append)
qed

text \<open>
  Claim C2, as the code has it. The pass over the catalog gives: genre counts that sum to
  the number of records, the count at a genre being the number of records of that genre
  and the keys being the genres of the catalog; author counts likewise; at every genre the
  list of the rating averages of the records of that genre with a positive rating count, in
  catalog order; and a borrow-frequency map keyed by title whose value at a title is the
  length of the borrow history of the last record of the catalog with that title. So
  the value at a record's title is the length of that record's own history whenever no
  later record has the same title, and for every record when the titles are distinct.
\<close>

theorem generate_statistics_spec:
  "sum_list (map snd (genres (generate_statistics bs))) = int (length bs)
   \<and> dd_get (genres (generate_statistics bs)) g = int (length (filter (\<lambda>b. genre b = g) bs))
   \<and> fst ` set (genres (generate_statistics bs)) = genre ` set bs
   \<and> distinct (map fst (genres (generate_statistics bs)))
   \<and> dd_get (authors (generate_statistics bs)) a = int (length (filter (\<lambda>b. author b = a) bs))
   \<and> fst ` set (authors (generate_statistics bs)) = author ` set bs
   \<and> dl_get (ratings (generate_statistics bs)) g =
        map rating (filter (\<lambda>b. genre b = g \<and> 0 < num_ratings b) bs)
   \<and> fst ` set (ratings (generate_statistics bs)) = genre ` {b \<in> set bs. 0 < num_ratings b}
   \<and> map_of (borrow_frequency (generate_statistics bs)) t =
        map_option (\<lambda>b. int (length (borrow_history b))) (find (\<lambda>b. title b = t) (rev bs))
   \<and> (bs = xs @ b # ys \<and> title b \<notin> title ` set ys \<longrightarrow>
        map_of (borrow_frequency (generate_statistics bs)) (title b)
          = Some (int (length (borrow_history b))))
   \<and> (distinct (map title bs) \<and> b \<in> set bs \<longrightarrow>
        map_of (borrow_frequency (generate_statistics bs)) (title b)
          = Some (int (length (borrow_history b))))"
proof -
  let ?s0 = "\<lparr>genres = [], authors = [], ratings = [], borrow_frequency = []\<rparr>"
  have bf: "map_of (borrow_frequency (generate_statistics bs)) t =
        map_option (\<lambda>b. int (length (borrow_history b))) (find (\<lambda>b. title b = t) (rev bs))" for t
    by (simp add: generate_statistics_def stats_borrow_frequency fold_update_last
        split: option.splits)
  have last_wins: "map_of (borrow_frequency (generate_statistics bs)) (title b)
          = Some (int (length (borrow_history b)))"
    if "bs = xs @ b # ys" "title b \<notin> title ` set ys" for xs b ys
  proof -
    from that(2) have "\<forall>y \<in> set ys. \<not> title y = title b" by (metis imageI)
    with that(1) have "find (\<lambda>c. title c = title b) (rev bs) = Some b"
      by (intro find_rev_last_with [of bs xs b ys]) simp_all
    then show ?thesis by (simp add: bf)
  qed
  have dist: "map_of (borrow_frequency (generate_statistics bs)) (title b)
          = Some (int (length (borrow_history b)))"
    if "distinct (map title bs)" "b \<in> set bs"
  proof -
    from that(2) obtain xs ys where sp: "bs = xs @ b # ys" by (auto simp: in_set_conv_decomp)
    with that(1) have "title b \<notin> title ` set ys" by auto
    with sp show ?thesis by (rule last_wins)
  qed
  have g1: "sum_list (map snd (genres (generate_statistics bs))) = int (length bs)"
    by (simp add: generate_statistics_def stats_genres fold_incr_sum)
  have g2: "dd_get (genres (generate_statistics bs)) g = int (length (filter (\<lambda>b. genre b = g) bs))"
    by (simp add: generate_statistics_def stats_genres fold_incr_get dd_get_Nil)
  have g3: "fst ` set (genres (generate_statistics bs)) = genre ` set bs"
    by (simp add: generate_statistics_def stats_genres fold_incr_keys)
  have g4: "distinct (map fst (genres (generate_statistics bs)))"
    by (simp add: generate_statistics_def stats_genres fold_incr_distinct)
  have a1: "dd_get (authors (generate_statistics bs)) a = int (length (filter (\<lambda>b. author b = a) bs))"
    by (simp add: generate_statistics_def stats_authors fold_incr_get dd_get_Nil)
  have a2: "fst ` set (authors (generate_statistics bs)) = author ` set bs"
    by (simp add: generate_statistics_def stats_authors fold_incr_keys)
  have r1: "dl_get (ratings (generate_statistics bs)) g =
        map rating (filter (\<lambda>b. genre b = g \<and> 0 < num_ratings b) bs)"
    by (simp add: generate_statistics_def stats_ratings_get dl_get_Nil)
  have r2: "fst ` set (ratings (generate_statistics bs)) = genre ` {b \<in> set bs. 0 < num_ratings b}"
    by (simp add: generate_statistics_def stats_ratings_keys)
  have lw: "bs = xs @ b # ys \<and> title b \<notin> title ` set ys \<longrightarrow>
        map_of (borrow_frequency (generate_statistics bs)) (title b)
          = Some (int (length (borrow_history b)))"
    using last_wins by blast
  have di: "distinct (map title bs) \<and> b \<in> set bs \<longrightarrow>
        map_of (borrow_frequency (generate_statistics bs)) (title b)
          = Some (int (length (borrow_history b)))"
    using dist by blast
  show ?thesis
    by (intro conjI; fact g1 g2 g3 g4 a1 a2 r1 r2 bf lw di)
qed


theorem generate_statistics_spec_witness:
  "sum_list (map snd (genres (generate_statistics
      [(Book ''Dune'' ''Herbert'' ''Sci-Fi'' ''b1'')
         \<lparr>borrow_history := [\<lparr>user_id = ''u1'', borrow_date = ''t1'', return_date = Some ''t2''\<rparr>],
          rating := 4, num_ratings := 1\<rparr>,
       Book ''Emma'' ''Austen'' ''Novel'' ''b2'',
       Book ''Solaris'' ''Lem'' ''Sci-Fi'' ''b3'']))) = 3
   \<and> map_of (borrow_frequency (generate_statistics
      [(Book ''Dune'' ''Herbert'' ''Sci-Fi'' ''b1'')
         \<lparr>borrow_history := [\<lparr>user_id = ''u1'', borrow_date = ''t1'', return_date = Some ''t2''\<rparr>],
          rating := 4, num_ratings := 1\<rparr>,
       Book ''Emma'' ''Austen'' ''Novel'' ''b2'',
       Book ''Solaris'' ''Lem'' ''Sci-Fi'' ''b3''])) ''Dune'' = Some 1
   \<and> map_of (borrow_frequency (generate_statistics
      [(Book ''Dune'' ''Herbert'' ''Sci-Fi'' ''b1'')
         \<lparr>borrow_history := [\<lparr>user_id = ''u1'', borrow_date = ''t1'', return_date = Some ''t2''\<rparr>],
          rating := 4, num_ratings := 1\<rparr>,
       Book ''Emma'' ''Austen'' ''Novel'' ''b2'',
       Book ''Solaris'' ''Lem'' ''Sci-Fi'' ''b3''])) ''Emma'' = Some 0
   \<and> dd_get (genres (generate_statistics
      [(Book ''Dune'' ''Herbert'' ''Sci-Fi'' ''b1'')
         \<lparr>borrow_history := [\<lparr>user_id = ''u1'', borrow_date = ''t1'', return_date = Some ''t2''\<rparr>],
          rating := 4, num_ratings := 1\<rparr>,
       Book ''Emma'' ''Austen'' ''Novel'' ''b2'',
       Book ''Solaris'' ''Lem'' ''Sci-Fi'' ''b3''])) ''Sci-Fi'' = 2
   \<and> dl_get (ratings (generate_statistics
      [(Book ''Dune'' ''Herbert'' ''Sci-Fi'' ''b1'')
         \<lparr>borrow_history := [\<lparr>user_id = ''u1'', borrow_date = ''t1'', return_date = Some ''t2''\<rparr>],
          rating := 4, num_ratings := 1\<rparr>,
       Book ''Emma'' ''Austen'' ''Novel'' ''b2'',
       Book ''Solaris'' ''Lem'' ''Sci-Fi'' ''b3''])) ''Sci-Fi'' = [4]"
proof -
  let ?A = "(Book ''Dune'' ''Herbert'' ''Sci-Fi'' ''b1'')
         \<lparr>borrow_history := [\<lparr>user_id = ''u1'', borrow_date = ''t1'', return_date = Some ''t2''\<rparr>],
          rating := 4, num_ratings := 1\<rparr>"
  let ?B = "Book ''Emma'' ''Austen'' ''Novel'' ''b2''"
  let ?C = "Book ''Solaris'' ''Lem'' ''Sci-Fi'' ''b3''"
  have h1: "[?A, ?B, ?C] = [] @ ?A # [?B, ?C] \<and> title ?A \<notin> title ` set [?B, ?C]"
    by (simp add: Book_def)
  have h2: "distinct (map title [?A, ?B, ?C]) \<and> ?B \<in> set [?A, ?B, ?C]"
    by (simp add: Book_def)
  have gA: "title ?A = ''Dune''" "int (length (borrow_history ?A)) = 1"
    "title ?B = ''Emma''" "int (length (borrow_history ?B)) = 0"
    by (simp_all add: Book_def)
  have fl: "filter (\<lambda>b. genre b = ''Sci-Fi'') [?A, ?B, ?C] = [?A, ?C]"
    "map rating (filter (\<lambda>b. genre b = ''Sci-Fi'' \<and> 0 < num_ratings b) [?A, ?B, ?C]) = [4]"
    by (simp_all add: Book_def)
  from generate_statistics_spec [of "[?A, ?B, ?C]" "''Sci-Fi''" "''Herbert''" "''Dune''" "[]" ?A "[?B, ?C]"]
    generate_statistics_spec [of "[?A, ?B, ?C]" "''Sci-Fi''" "''Herbert''" "''Dune''" "[]" ?B "[?C]"]
    h1 h2
  show ?thesis unfolding gA fl by simp
qed

text \<open>
  Claim C2 as stated fails when two records share a title: the first record below has one
  history entry, and the value of the borrow-frequency map at its title is 0, the length of
  the history of the second record.
\<close>

theorem borrow_frequency_counterexample:
  "map_of (borrow_frequency (generate_statistics
      [(Book ''Dune'' ''Herbert'' ''Sci-Fi'' ''b1'')
         \<lparr>borrow_history := [\<lparr>user_id = ''u1'', borrow_date = ''t1'', return_date = Some ''t2''\<rparr>]\<rparr>,
       Book ''Dune'' ''Lynch'' ''Film'' ''b2'']))
     (title ((Book ''Dune'' ''Herbert'' ''Sci-Fi'' ''b1'')
         \<lparr>borrow_history := [\<lparr>user_id = ''u1'', borrow_date = ''t1'', return_date = Some ''t2''\<rparr>]\<rparr>))
   \<noteq> Some (int (length (borrow_history ((Book ''Dune'' ''Herbert'' ''Sci-Fi'' ''b1'')
         \<lparr>borrow_history := [\<lparr>user_id = ''u1'', borrow_date = ''t1'', return_date = Some ''t2''\<rparr>]\<rparr>))))
   \<and> map_of (borrow_frequency (generate_statistics
      [(Book ''Dune'' ''Herbert'' ''Sci-Fi'' ''b1'')
         \<lparr>borrow_history := [\<lparr>user_id = ''u1'', borrow_date = ''t1'', return_date = Some ''t2''\<rparr>]\<rparr>,
       Book ''Dune'' ''Lynch'' ''Film'' ''b2''])) ''Dune'' = Some 0"
  by (simp add: generate_statistics_def stats_step_def Book_def dd_incr_def dd_get_def)

subsection \<open>Invariants of the reachable store states\<close>

lemma history_ok_Book: "history_ok (Book t a g i)"
  by (simp add: history_ok_def Book_def)

lemma all_closed_when_returned:
  assumes "history_ok b" "\<not> is_borrowed b"
  shows "list_all (\<lambda>e. return_date e \<noteq> None) (borrow_history b)"
proof (cases "borrow_history b = []")
  case True
  then show ?thesis by simp
next
  case False
  then have "list_all (\<lambda>e. return_date e \<noteq> None) (borrow_history b) =
      list_all (\<lambda>e. return_date e \<noteq> None)
        (butlast (borrow_history b) @ [last (borrow_history b)])"
    by simp
  also have "\<dots> = (list_all (\<lambda>e. return_date e \<noteq> None) (butlast (borrow_history b))
       \<and> return_date (last (borrow_history b)) \<noteq> None)"
    by simp
  finally have "list_all (\<lambda>e. return_date e \<noteq> None) (borrow_history b) =
      (list_all (\<lambda>e. return_date e \<noteq> None) (butlast (borrow_history b))
       \<and> return_date (last (borrow_history b)) \<noteq> None)" .
  with assms False show ?thesis by (simp add: history_ok_def)
qed

lemma borrow_history_ok: "history_ok b \<Longrightarrow> history_ok (snd (borrow uid now b))"
proof (cases "is_borrowed b")
  case True
  assume "history_ok b"
  with True show ?thesis by (simp add: borrow_def)
next
  case False
  assume "history_ok b"
  from all_closed_when_returned [OF this False] False
  show ?thesis by (simp add: borrow_def history_ok_def)
qed

lemma return_book_history_ok: "history_ok b \<Longrightarrow> history_ok (snd (return_book now b))"
  by (auto simp: return_book_def history_ok_def close_last_props)

lemma rate_history_ok: "history_ok b \<Longrightarrow> history_ok (rate r b)"
  by (auto simp: rate_def add_rating_def history_ok_def split: sum.splits if_splits)

lemma rate_rating_ok: "rating_ok b \<Longrightarrow> rating_ok (rate r b)"
  by (auto simp: rate_def split: sum.splits dest: add_rating_rating_ok)

lemma borrow_rating_ok: "rating_ok b \<Longrightarrow> rating_ok (snd (borrow uid now b))"
  by (simp add: borrow_def rating_ok_def)

lemma return_book_rating_ok: "rating_ok b \<Longrightarrow> rating_ok (snd (return_book now b))"
  by (simp add: return_book_def rating_ok_def)

lemma book_id_kept:
  "book_id (snd (borrow uid now b)) = book_id b"
  "book_id (snd (return_book now b)) = book_id b"
  "book_id (rate r b) = book_id b"
  by (auto simp: borrow_def return_book_def rate_def add_rating_def split: sum.splits if_splits)

lemma record_inv_of_ok:
  assumes "rating_ok b" "history_ok b"
  shows "record_inv b"
proof -
  let ?h = "borrow_history b"
  have "length (filter (\<lambda>e. return_date e = None) ?h) \<le> 1"
  proof (cases "?h = []")
    case True
    then show ?thesis by simp
  next
    case False
    then have sp: "?h = butlast ?h @ [last ?h]" by simp
    from assms(2) have "filter (\<lambda>e. return_date e = None) (butlast ?h) = []"
      by (simp add: history_ok_def filter_empty_conv list_all_iff)
    then have "length (filter (\<lambda>e. return_date e = None) (butlast ?h @ [last ?h])) \<le> 1"
      by simp
    with sp show ?thesis by simp
  qed
  with assms show ?thesis
    by (auto simp: record_inv_def rating_ok_def history_ok_def split: if_splits)
qed

text \<open>The inductive invariant of the store.\<close>

lemma on_record_ids:
  assumes "k < length (books L)" "\<And>b. book_id (f b) = book_id b"
  shows "map book_id (books (on_record k f L)) = map book_id (books L)"
  using assms by (simp add: on_record_def map_update list_update_same_conv)

lemma on_record_all:
  assumes "\<forall>b \<in> set (books L). P b" "k < length (books L)" "\<And>b. P b \<Longrightarrow> P (f b)"
  shows "\<forall>b \<in> set (books (on_record k f L)). P b"
proof
  fix b assume "b \<in> set (books (on_record k f L))"
  then have "b \<in> insert (f (books L ! k)) (set (books L))"
    using set_update_subset_insert [of "books L" k "f (books L ! k)"]
    by (auto simp: on_record_def)
  with assms show "P b" by (auto simp: nth_mem)
qed

lemma add_book_cases:
  "books (snd (add_book t a g i L)) = books L \<or>
   (i \<notin> book_id ` set (books L) \<and> books (snd (add_book t a g i L)) = books L @ [Book t a g i])"
  by (auto simp: add_book_def save_books_def list_ex_iff)

lemma reachable_strong:
  "reachable L \<Longrightarrow>
     distinct (map book_id (books L)) \<and> (\<forall>b \<in> set (books L). rating_ok b \<and> history_ok b)"
proof (induction rule: reachable.induct)
  case (reach_empty d)
  then show ?case by simp
next
  case (reach_add L t a g i)
  from add_book_cases [of t a g i L] show ?case
  proof
    assume "books (snd (add_book t a g i L)) = books L"
    with reach_add.IH show ?thesis by simp
  next
    assume n: "i \<notin> book_id ` set (books L) \<and>
      books (snd (add_book t a g i L)) = books L @ [Book t a g i]"
    have "book_id (Book t a g i) = i" by (simp add: Book_def)
    with n reach_add.IH show ?thesis
      by (auto simp: rating_ok_Book history_ok_Book)
  qed
next
  case (reach_borrow L k uid now)
  let ?f = "\<lambda>b. snd (borrow uid now b)"
  have "map book_id (books (on_record k ?f L)) = map book_id (books L)"
    using reach_borrow.hyps(2) by (rule on_record_ids) (rule book_id_kept)
  moreover have "\<forall>b \<in> set (books (on_record k ?f L)). rating_ok b \<and> history_ok b"
    using reach_borrow.IH reach_borrow.hyps(2)
    by (intro on_record_all [where f = ?f]) (auto simp: borrow_rating_ok borrow_history_ok)
  ultimately show ?case using reach_borrow.IH by simp
next
  case (reach_return L k now)
  let ?f = "\<lambda>b. snd (return_book now b)"
  have "map book_id (books (on_record k ?f L)) = map book_id (books L)"
    using reach_return.hyps(2) by (rule on_record_ids) (rule book_id_kept)
  moreover have "\<forall>b \<in> set (books (on_record k ?f L)). rating_ok b \<and> history_ok b"
    using reach_return.IH reach_return.hyps(2)
    by (intro on_record_all [where f = ?f])
      (auto simp: return_book_rating_ok return_book_history_ok)
  ultimately show ?case using reach_return.IH by simp
next
  case (reach_rate L k r)
  have "map book_id (books (on_record k (rate r) L)) = map book_id (books L)"
    using reach_rate.hyps(2) by (rule on_record_ids) (rule book_id_kept)
  moreover have "\<forall>b \<in> set (books (on_record k (rate r) L)). rating_ok b \<and> history_ok b"
    using reach_rate.IH reach_rate.hyps(2)
    by (intro on_record_all [where f = "rate r"]) (auto simp: rate_rating_ok rate_history_ok)
  ultimately show ?case using reach_rate.IH by simp
next
  case (reach_save L)
  then show ?case by (simp add: save_books_def)
qed

text \<open>
  Claim C8. Every store state that \<open>add_book\<close>, \<open>borrow\<close>, \<open>return_book\<close> and \<open>add_rating\<close>
  produce from an empty store has unique ids, and each of its records has its average in
  [0, 5] when its rating count is positive and exactly 0 otherwise, has its last history
  entry open if and only if it is borrowed, and has at most one open history entry.
\<close>

theorem reachable_store_inv: "reachable L \<Longrightarrow> store_inv L"
proof -
  assume "reachable L"
  from reachable_strong [OF this]
  show "store_inv L"
    by (auto simp: store_inv_def list_all_iff intro: record_inv_of_ok)
qed

theorem reachable_store_inv_witness:
  "reachable
     (on_record 0 (rate 4)
       (on_record 0 (\<lambda>b. snd (borrow ''u1'' ''t1'' b))
         (snd (add_book ''Dune'' ''Herbert'' ''Sci-Fi'' ''b1'' \<lparr>books = [], disk = None\<rparr>))))
   \<and> store_inv
     (on_record 0 (rate 4)
       (on_record 0 (\<lambda>b. snd (borrow ''u1'' ''t1'' b))
         (snd (add_book ''Dune'' ''Herbert'' ''Sci-Fi'' ''b1'' \<lparr>books = [], disk = None\<rparr>))))
   \<and> books
     (on_record 0 (rate 4)
       (on_record 0 (\<lambda>b. snd (borrow ''u1'' ''t1'' b))
         (snd (add_book ''Dune'' ''Herbert'' ''Sci-Fi'' ''b1'' \<lparr>books = [], disk = None\<rparr>))))
     = [(Book ''Dune'' ''Herbert'' ''Sci-Fi'' ''b1'')
          \<lparr>is_borrowed := True,
           borrow_history := [\<lparr>user_id = ''u1'', borrow_date = ''t1'', return_date = None\<rparr>],
           rating := 4, num_ratings := 1\<rparr>]"
proof -
  let ?L1 = "snd (add_book ''Dune'' ''Herbert'' ''Sci-Fi'' ''b1'' \<lparr>books = [], disk = None\<rparr>)"
  let ?L2 = "on_record 0 (\<lambda>b. snd (borrow ''u1'' ''t1'' b)) ?L1"
  let ?L3 = "on_record 0 (rate 4) ?L2"
  have b1: "books ?L1 = [Book ''Dune'' ''Herbert'' ''Sci-Fi'' ''b1'']"
    by (simp add: add_book_def save_books_def)
  have r1: "reachable ?L1" by (rule reach_add [OF reach_empty])
  have r2: "reachable ?L2" by (rule reach_borrow [OF r1]) (simp add: b1)
  have r3: "reachable ?L3" by (rule reach_rate [OF r2]) (simp add: on_record_def b1)
  have b3: "books ?L3 = [(Book ''Dune'' ''Herbert'' ''Sci-Fi'' ''b1'')
          \<lparr>is_borrowed := True,
           borrow_history := [\<lparr>user_id = ''u1'', borrow_date = ''t1'', return_date = None\<rparr>],
           rating := 4, num_ratings := 1\<rparr>]"
    by (simp add: on_record_def b1 borrow_def rate_def add_rating_def Book_def)
  from r3 reachable_store_inv [OF r3] b3 show ?thesis by blast
qed

subsection \<open>Recommendations\<close>

lemma insort_lt_sorted:
  "sorted (map fst ys) \<Longrightarrow>
     insort_lt x ys =
       (if fst x \<in> fst ` set ys then Inl TypeError else Inr (insort_key fst x ys))"
proof (induction ys)
  case Nil
  then show ?case by simp
next
  case (Cons y ys)
  from Cons.prems have s: "sorted (map fst ys)" and le: "\<forall>z \<in> set ys. fst y \<le> fst z"
    by simp_all
  note IH = Cons.IH [OF s]
  show ?case
  proof (cases "fst x = fst y")
    case True
    then show ?thesis by (simp add: tuple_lt_def)
  next
    case False
    show ?thesis
    proof (cases "fst x < fst y")
      case True
      with le have "fst x \<notin> fst ` set ys" by force
      with True False show ?thesis by (simp add: tuple_lt_def)
    next
      case ge: False
      with False have "\<not> fst x \<le> fst y" by simp
      with False ge show ?thesis by (simp add: tuple_lt_def IH)
    qed
  qed
qed

lemma sort_lt_char:
  "sort_lt xs = (if distinct (map fst xs) then Inr (sort_key fst xs) else Inl TypeError)"
proof (induction xs)
  case Nil
  then show ?case by simp
next
  case (Cons x xs)
  show ?case
  proof (cases "distinct (map fst xs)")
    case False
    with Cons.IH show ?thesis by simp
  next
    case True
    have "sorted (map fst (sort_key fst xs))" by (rule sorted_sort_key)
    from insort_lt_sorted [OF this, of x] True Cons.IH
    show ?thesis by (simp add: sort_key_def [symmetric])
  qed
qed

lemma sorted_reverse_char:
  "sorted_reverse xs =
     (if distinct (map fst xs) then Inr (rev (sort_key fst (rev xs))) else Inl TypeError)"
proof -
  have "distinct (map fst (rev xs)) = distinct (map fst xs)"
    by (simp add: rev_map [symmetric])
  then show ?thesis by (simp add: sorted_reverse_def sort_lt_char)
qed

lemma insort_key_tagged:
  "insort_key fst (f x, x) (map (\<lambda>b. (f b, b)) ys) = map (\<lambda>b. (f b, b)) (insort_key f x ys)"
  by (induction ys) simp_all

lemma sort_key_tagged:
  "sort_key fst (map (\<lambda>b. (f b, b)) xs) = map (\<lambda>b. (f b, b)) (sort_key f xs)"
  by (induction xs) (simp_all add: sort_key_def [symmetric] insort_key_tagged)

text \<open>The first loop computes the counts of the specification.\<close>

lemma count_record_fold:
  "dd_get (fst (fold (count_record uid b) h acc)) g =
     dd_get (fst acc) g
       + (if genre b = g then int (length (filter (\<lambda>r. user_id r = uid) h)) else 0)"
  "dd_get (snd (fold (count_record uid b) h acc)) a =
     dd_get (snd acc) a
       + (if author b = a then int (length (filter (\<lambda>r. user_id r = uid) h)) else 0)"
  by (induction h arbitrary: acc) (simp_all add: count_record_def dd_get_incr)

lemma analyze_fold:
  "dd_get (fst (fold (\<lambda>b acc. fold (count_record uid b) (borrow_history b) acc) bs acc)) g =
     dd_get (fst acc) g + int (genre_count uid bs g)"
  "dd_get (snd (fold (\<lambda>b acc. fold (count_record uid b) (borrow_history b) acc) bs acc)) a =
     dd_get (snd acc) a + int (author_count uid bs a)"
  by (induction bs arbitrary: acc)
    (simp_all add: count_record_fold genre_count_def author_count_def borrow_count_def)

lemma analyze_history_counts:
  "dd_get (fst (analyze_history uid bs)) g = int (genre_count uid bs g)"
  "dd_get (snd (analyze_history uid bs)) a = int (author_count uid bs a)"
  by (simp_all add: analyze_history_def analyze_fold dd_get_Nil)

lemma score_spec:
  "score (fst (analyze_history uid bs)) (snd (analyze_history uid bs)) b = spec_score uid bs b"
  by (simp add: score_def spec_score_def analyze_history_counts)

lemma candidates_spec:
  "candidates (fst (analyze_history uid bs)) (snd (analyze_history uid bs)) bs =
     map (\<lambda>b. (spec_score uid bs b, b)) (eligible uid bs)"
  by (simp add: candidates_def eligible_def score_spec)

text \<open>
  What \<open>generate_recommendations\<close> computes, the scores taken in exact arithmetic. When the
  eligible records (not borrowed, score positive) have pairwise different scores, it returns
  the first five of them in descending order of the score. When two eligible records have
  the same score it raises \<open>TypeError\<close>.
\<close>

lemma generate_recommendations_char:
  "generate_recommendations uid bs =
     (if distinct (map (spec_score uid bs) (eligible uid bs))
      then Inr (take 5 (rev (sort_key (spec_score uid bs) (rev (eligible uid bs)))))
      else Inl TypeError)"
proof -
  let ?f = "spec_score uid bs"
  have m: "map fst (map (\<lambda>b. (?f b, b)) (eligible uid bs)) = map ?f (eligible uid bs)"
    by (simp add: comp_def)
  have r: "rev (map (\<lambda>b. (?f b, b)) (eligible uid bs)) = map (\<lambda>b. (?f b, b)) (rev (eligible uid bs))"
    by (simp add: rev_map)
  have s: "map snd (map (\<lambda>b. (?f b, b)) xs) = xs" for xs
    by (simp add: comp_def)
  show ?thesis
    unfolding generate_recommendations_def Let_def candidates_spec sorted_reverse_char m r
      sort_key_tagged
    by (simp add: take_map [symmetric] rev_map [symmetric] s del: map_map)
qed

lemma generate_recommendations_no_ties:
  assumes "distinct (map (spec_score uid bs) (eligible uid bs))"
  shows "\<exists>rs. generate_recommendations uid bs = Inr rs
           \<and> length rs \<le> 5
           \<and> set rs \<subseteq> {b \<in> set bs. \<not> is_borrowed b \<and> 0 < spec_score uid bs b}
           \<and> sorted (rev (map (spec_score uid bs) rs))
           \<and> distinct (map (spec_score uid bs) rs)
           \<and> (\<forall>b \<in> set (eligible uid bs). b \<in> set rs \<or>
                 (length rs = 5 \<and> (\<forall>c \<in> set rs. spec_score uid bs b < spec_score uid bs c)))"
proof -
  let ?f = "spec_score uid bs"
  let ?s = "rev (sort_key ?f (rev (eligible uid bs)))"
  let ?rs = "take 5 ?s"
  have g: "generate_recommendations uid bs = Inr ?rs"
    using assms by (simp add: generate_recommendations_char)
  have set_s: "set ?s = set (eligible uid bs)" by simp
  have ds: "distinct (map ?f ?s)"
    using assms by (metis distinct_rev mset_map mset_rev mset_sort mset_eq_imp_distinct_iff)
  have ss: "sorted (rev (map ?f ?s))"
    by (simp add: rev_map [symmetric] sorted_sort_key)
  have sub: "set ?rs \<subseteq> {b \<in> set bs. \<not> is_borrowed b \<and> 0 < ?f b}"
    using set_take_subset [of 5 ?s] by (auto simp: eligible_def)
  have srt: "sorted (rev (map ?f ?rs))"
  proof -
    have "rev (map ?f ?rs) = drop (length ?s - 5) (rev (map ?f ?s))"
      by (simp add: take_map [symmetric] rev_take)
    with ss show ?thesis by (simp add: sorted_wrt_drop)
  qed
  have drs: "distinct (map ?f ?rs)"
    using ds by (simp add: take_map [symmetric] distinct_take)
  have top: "b \<in> set ?rs \<or> (length ?rs = 5 \<and> (\<forall>c \<in> set ?rs. ?f b < ?f c))"
    if "b \<in> set (eligible uid bs)" for b
  proof (cases "b \<in> set ?rs")
    case True
    then show ?thesis by simp
  next
    case False
    from that have bs: "b \<in> set ?s" by simp
    have sp: "?s = ?rs @ drop 5 ?s" by simp
    from bs False have bd: "b \<in> set (drop 5 ?s)"
      by (metis Un_iff set_append sp)
    then have len: "length ?rs = 5" by (cases "5 \<le> length ?s") auto
    have "sorted (rev (map ?f (?rs @ drop 5 ?s)))" using ss by simp
    then have ord: "\<forall>c \<in> set ?rs. ?f b \<le> ?f c"
      using bd by (auto simp: sorted_append rev_map simp del: append_take_drop_id)
    have "distinct (map ?f (?rs @ drop 5 ?s))" using ds by simp
    then have ne: "\<forall>c \<in> set ?rs. ?f b \<noteq> ?f c"
      using bd by (auto simp del: append_take_drop_id)
    from ord ne have "\<forall>c \<in> set ?rs. ?f b < ?f c" by (simp add: order.strict_iff_order)
    with len show ?thesis by simp
  qed
  from g sub srt drs top show ?thesis by (intro exI [of _ ?rs]) simp
qed

text \<open>The scenario of the specification: A (Sci-Fi, rated 4, borrowed twice by U1 and
  still borrowed) and B (Sci-Fi, unrated, never borrowed): B has the score 4 and is
  recommended, A is not.\<close>

lemma generate_recommendations_example:
  "generate_recommendations ''U1''
     [(Book ''A'' ''Herbert'' ''Sci-Fi'' ''a'')
        \<lparr>is_borrowed := True,
         borrow_history :=
           [\<lparr>user_id = ''U1'', borrow_date = ''t1'', return_date = Some ''t2''\<rparr>,
            \<lparr>user_id = ''U1'', borrow_date = ''t3'', return_date = None\<rparr>],
         rating := 4, num_ratings := 1\<rparr>,
      Book ''B'' ''Lem'' ''Sci-Fi'' ''b'']
   = Inr [Book ''B'' ''Lem'' ''Sci-Fi'' ''b'']"
  by (simp add: generate_recommendations_def analyze_history_def candidates_def score_def
      count_record_def dd_incr_def dd_get_def sorted_reverse_def tuple_lt_def Book_def)

text \<open>
  Claim C1 on a catalog of two records that are not borrowed, were never borrowed and are
  both rated 4: both have the score 4, the claim asks for both in encounter order, and the
  sort raises \<open>TypeError\<close> where it compares the two \<open>Book\<close> objects.
\<close>

theorem generate_recommendations_tie_raises:
  "generate_recommendations ''u1''
     [(Book ''Dune'' ''Herbert'' ''Sci-Fi'' ''b1'')\<lparr>rating := 4, num_ratings := 1\<rparr>,
      (Book ''Emma'' ''Austen'' ''Novel'' ''b2'')\<lparr>rating := 4, num_ratings := 1\<rparr>]
   = Inl TypeError"
  by (simp add: generate_recommendations_def analyze_history_def candidates_def score_def
      dd_get_def sorted_reverse_def tuple_lt_def Book_def)

end
